theory Spec2Isabelle
  imports Complex_Main "HOL-Library.Sublist"
begin

section \<open>The embedding service of \<^verbatim>\<open>src/embedder/main.py\<close>\<close>

text \<open>
  The service is glue between an HTTP framework, the file system, an image decoder and
  two resident embedding models. None of these is code of the repository, so each is a
  field of a record the handlers receive: the handlers are modelled as they are written,
  for every behaviour of the libraries they call. A library call that can raise returns
  a sum, \<open>Inl\<close> carrying the exception. Every library call a handler makes is
  written to a trace, in program order, so that "without calling the model" is a
  statement about the trace.

  The decoded image type \<open>'img\<close> (a PIL image) and the number type \<open>'f\<close> of an
  embedding's components (a Python float) stay type variables: the handlers only move
  such values around.
\<close>

subsection \<open>Values\<close>

type_synonym bytes = "char list"

datatype exn =
    UnidentifiedImageError
  | FileNotFoundError
  | OSError
  | ValueError
  | RuntimeError

text \<open>The request models: \<^verbatim>\<open>class TextRequest(BaseModel): text: str\<close> and its two
  siblings. The field \<^verbatim>\<open>text\<close> is written \<open>text'\<close>, the plain name being a keyword.\<close>

record TextRequest =
  text' :: string

record TextsRequest =
  texts :: "string list"

record ImagePathsRequest =
  paths :: "string list"

text \<open>The three dictionaries the handlers return: \<^verbatim>\<open>{"status": s}\<close>,
  \<^verbatim>\<open>{"embedding": e}\<close> and \<^verbatim>\<open>{"embeddings": es}\<close>.\<close>

datatype 'f response =
    StatusResponse string
  | EmbeddingResponse "'f list"
  | EmbeddingsResponse "'f list list"

subsection \<open>The libraries the handlers call\<close>

text \<open>
  \<^item> \<open>path_exists p\<close> is \<^verbatim>\<open>Path(p).exists()\<close>;
  \<^item> \<open>image_open p\<close> is \<^verbatim>\<open>Image.open(path).convert("RGB")\<close>;
  \<^item> \<open>image_open_bytes b\<close> is \<^verbatim>\<open>Image.open(io.BytesIO(contents)).convert("RGB")\<close>;
  \<^item> \<open>clip_encode\<close> and \<open>clip_encode_batch\<close> are \<^verbatim>\<open>clip_model.encode(x).tolist()\<close> on one
    image and on a list of images (the method dispatches on its argument);
  \<^item> \<open>text_encode\<close> and \<open>text_encode_batch\<close> are \<^verbatim>\<open>text_model.encode(x).tolist()\<close> on one
    string and on a list of strings.
\<close>

record ('img, 'f) host =
  path_exists :: "string \<Rightarrow> exn + bool"
  image_open :: "string \<Rightarrow> exn + 'img"
  image_open_bytes :: "bytes \<Rightarrow> exn + 'img"
  clip_encode :: "'img \<Rightarrow> exn + 'f list"
  clip_encode_batch :: "'img list \<Rightarrow> exn + 'f list list"
  text_encode :: "string \<Rightarrow> exn + 'f list"
  text_encode_batch :: "string list \<Rightarrow> exn + 'f list list"

datatype 'img call =
    PathExists string
  | ImageOpen string
  | ImageOpenBytes bytes
  | ClipEncode 'img
  | ClipEncodeBatch "'img list"
  | TextEncode string
  | TextEncodeBatch "string list"

fun is_model_call :: "'img call \<Rightarrow> bool" where
  "is_model_call (ClipEncode _) = True"
| "is_model_call (ClipEncodeBatch _) = True"
| "is_model_call (TextEncode _) = True"
| "is_model_call (TextEncodeBatch _) = True"
| "is_model_call _ = False"

text \<open>\<open>after tr r\<close>: the calls \<open>tr\<close> happened, then the rest of the run \<open>r\<close>.\<close>

definition after :: "'c list \<Rightarrow> 'c list \<times> 'a \<Rightarrow> 'c list \<times> 'a" where
  "after tr r = (tr @ fst r, snd r)"

subsection \<open>The handlers\<close>

definition health :: "'img call list \<times> (exn + 'f response)" where
  "health = ([], Inr (StatusResponse ''ok''))"

definition embed_text ::
  "('img, 'f) host \<Rightarrow> TextRequest \<Rightarrow> 'img call list \<times> (exn + 'f response)" where
  "embed_text h req =
     after [TextEncode (text' req)]
       (case text_encode h (text' req) of
          Inl e \<Rightarrow> ([], Inl e)
        | Inr embedding \<Rightarrow> ([], Inr (EmbeddingResponse embedding)))"

definition embed_texts ::
  "('img, 'f) host \<Rightarrow> TextsRequest \<Rightarrow> 'img call list \<times> (exn + 'f response)" where
  "embed_texts h req =
     after [TextEncodeBatch (texts req)]
       (case text_encode_batch h (texts req) of
          Inl e \<Rightarrow> ([], Inl e)
        | Inr embeddings \<Rightarrow> ([], Inr (EmbeddingsResponse embeddings)))"

definition embed_image ::
  "('img, 'f) host \<Rightarrow> bytes \<Rightarrow> 'img call list \<times> (exn + 'f response)" where
  "embed_image h contents =
     after [ImageOpenBytes contents]
       (case image_open_bytes h contents of
          Inl e \<Rightarrow> ([], Inl e)
        | Inr img \<Rightarrow>
            after [ClipEncode img]
              (case clip_encode h img of
                 Inl e \<Rightarrow> ([], Inl e)
               | Inr embedding \<Rightarrow> ([], Inr (EmbeddingResponse embedding))))"

text \<open>The loop of \<^verbatim>\<open>embed_image_paths\<close>: \<open>images\<close> is the list built so far; a path is
  opened only after \<^verbatim>\<open>exists()\<close> said yes, and the first exception ends the loop.\<close>

fun load_images ::
  "('img, 'f) host \<Rightarrow> string list \<Rightarrow> 'img list \<Rightarrow> 'img call list \<times> (exn + 'img list)" where
  "load_images h [] images = ([], Inr images)"
| "load_images h (p # ps) images =
     after [PathExists p]
       (case path_exists h p of
          Inl e \<Rightarrow> ([], Inl e)
        | Inr False \<Rightarrow> load_images h ps images
        | Inr True \<Rightarrow>
            after [ImageOpen p]
              (case image_open h p of
                 Inl e \<Rightarrow> ([], Inl e)
               | Inr img \<Rightarrow> load_images h ps (images @ [img])))"

definition embed_image_paths ::
  "('img, 'f) host \<Rightarrow> ImagePathsRequest \<Rightarrow> 'img call list \<times> (exn + 'f response)" where
  "embed_image_paths h req =
     (case load_images h (paths req) [] of
        (tr, Inl e) \<Rightarrow> (tr, Inl e)
      | (tr, Inr images) \<Rightarrow>
          if images = [] then (tr, Inr (EmbeddingsResponse []))
          else
            after (tr @ [ClipEncodeBatch images])
              (case clip_encode_batch h images of
                 Inl e \<Rightarrow> ([], Inl e)
               | Inr embeddings \<Rightarrow> ([], Inr (EmbeddingsResponse embeddings))))"

subsection \<open>Requests and responses on the wire\<close>

text \<open>
  The framework decodes the body of a POST as JSON and validates it against the
  handler's request model before it calls the handler; a handler that raises is answered
  with status 500. A body that is not JSON at all is \<open>NotJson\<close>. An object keeps its
  members in the order of the text; a key written twice has the value written last.
\<close>

datatype json =
    JNull
  | JBool bool
  | JNumber real
  | JString string
  | JArray "json list"
  | JObject "(string \<times> json) list"

datatype body = NotJson | JsonBody json

datatype 'f http_response =
    HTTP_200 "'f response"
  | HTTP_422
  | HTTP_500

definition field :: "(string \<times> json) list \<Rightarrow> string \<Rightarrow> json option" where
  "field members k = map_of (rev members) k"

text \<open>A field annotated \<^verbatim>\<open>str\<close> takes a JSON string and nothing else; a field annotated
  \<^verbatim>\<open>list[str]\<close> takes an array of them.\<close>

fun str_value :: "json \<Rightarrow> string option" where
  "str_value (JString s) = Some s"
| "str_value _ = None"

fun str_values :: "json list \<Rightarrow> string list option" where
  "str_values [] = Some []"
| "str_values (x # xs) =
     (case str_value x of
        None \<Rightarrow> None
      | Some s \<Rightarrow> (case str_values xs of None \<Rightarrow> None | Some ss \<Rightarrow> Some (s # ss)))"

fun str_list_value :: "json \<Rightarrow> string list option" where
  "str_list_value (JArray xs) = str_values xs"
| "str_list_value _ = None"

fun members_of :: "json \<Rightarrow> (string \<times> json) list option" where
  "members_of (JObject members) = Some members"
| "members_of _ = None"

definition TextRequest_validate :: "json \<Rightarrow> TextRequest option" where
  "TextRequest_validate j =
     (case members_of j of
        None \<Rightarrow> None
      | Some members \<Rightarrow>
          (case field members ''text'' of
             None \<Rightarrow> None
           | Some v \<Rightarrow> (case str_value v of None \<Rightarrow> None | Some s \<Rightarrow> Some \<lparr>text' = s\<rparr>)))"

definition TextsRequest_validate :: "json \<Rightarrow> TextsRequest option" where
  "TextsRequest_validate j =
     (case members_of j of
        None \<Rightarrow> None
      | Some members \<Rightarrow>
          (case field members ''texts'' of
             None \<Rightarrow> None
           | Some v \<Rightarrow> (case str_list_value v of None \<Rightarrow> None | Some ss \<Rightarrow> Some \<lparr>texts = ss\<rparr>)))"

definition ImagePathsRequest_validate :: "json \<Rightarrow> ImagePathsRequest option" where
  "ImagePathsRequest_validate j =
     (case members_of j of
        None \<Rightarrow> None
      | Some members \<Rightarrow>
          (case field members ''paths'' of
             None \<Rightarrow> None
           | Some v \<Rightarrow> (case str_list_value v of None \<Rightarrow> None | Some ss \<Rightarrow> Some \<lparr>paths = ss\<rparr>)))"

fun respond :: "exn + 'f response \<Rightarrow> 'f http_response" where
  "respond (Inl e) = HTTP_500"
| "respond (Inr r) = HTTP_200 r"

definition answer :: "'c list \<times> (exn + 'f response) \<Rightarrow> 'c list \<times> 'f http_response" where
  "answer r = (fst r, respond (snd r))"

text \<open>The five routes: the decorator's path and method, the validation the handler's
  signature asks for, then the handler.\<close>

definition GET_health :: "('img, 'f) host \<Rightarrow> 'img call list \<times> 'f http_response" where
  "GET_health h = answer health"

definition POST_embed_text ::
  "('img, 'f) host \<Rightarrow> body \<Rightarrow> 'img call list \<times> 'f http_response" where
  "POST_embed_text h b =
     (case b of
        NotJson \<Rightarrow> ([], HTTP_422)
      | JsonBody j \<Rightarrow>
          (case TextRequest_validate j of
             None \<Rightarrow> ([], HTTP_422)
           | Some req \<Rightarrow> answer (embed_text h req)))"

definition POST_embed_texts ::
  "('img, 'f) host \<Rightarrow> body \<Rightarrow> 'img call list \<times> 'f http_response" where
  "POST_embed_texts h b =
     (case b of
        NotJson \<Rightarrow> ([], HTTP_422)
      | JsonBody j \<Rightarrow>
          (case TextsRequest_validate j of
             None \<Rightarrow> ([], HTTP_422)
           | Some req \<Rightarrow> answer (embed_texts h req)))"

text \<open>The upload of \<^verbatim>\<open>/embed/image\<close> is a required multipart file: \<open>None\<close> is a request
  without it, \<open>Some contents\<close> one whose file reads as \<open>contents\<close>.\<close>

definition POST_embed_image ::
  "('img, 'f) host \<Rightarrow> bytes option \<Rightarrow> 'img call list \<times> 'f http_response" where
  "POST_embed_image h upload =
     (case upload of
        None \<Rightarrow> ([], HTTP_422)
      | Some contents \<Rightarrow> answer (embed_image h contents))"

definition POST_embed_image_paths ::
  "('img, 'f) host \<Rightarrow> body \<Rightarrow> 'img call list \<times> 'f http_response" where
  "POST_embed_image_paths h b =
     (case b of
        NotJson \<Rightarrow> ([], HTTP_422)
      | JsonBody j \<Rightarrow>
          (case ImagePathsRequest_validate j of
             None \<Rightarrow> ([], HTTP_422)
           | Some req \<Rightarrow> answer (embed_image_paths h req)))"

subsection \<open>Start-up: the thread count\<close>

text \<open>
  \<^verbatim>\<open>num_threads = int(os.environ.get("TORCH_NUM_THREADS", os.cpu_count() or 1))\<close>, then
  \<^verbatim>\<open>torch.set_num_threads(num_threads)\<close> and \<^verbatim>\<open>torch.set_num_interop_threads(num_threads)\<close>.
  The process environment, \<^verbatim>\<open>os.cpu_count()\<close> (which is \<^verbatim>\<open>None\<close> when the count cannot
  be determined), the built-in \<^verbatim>\<open>int\<close> on a string and the two setters of the inference
  runtime (\<open>Some e\<close> when the setter raises \<open>e\<close>) are what the start-up code is given.
\<close>

record runtime =
  environ :: "string \<Rightarrow> string option"
  cpu_count :: "nat option"
  int_of_str :: "string \<Rightarrow> exn + int"
  set_num_threads :: "int \<Rightarrow> exn option"
  set_num_interop_threads :: "int \<Rightarrow> exn option"

datatype torch_call = SetNumThreads int | SetNumInteropThreads int

text \<open>\<^verbatim>\<open>x or 1\<close> on an optional count: \<^verbatim>\<open>None\<close> and \<^verbatim>\<open>0\<close> are falsy.\<close>

definition or_1 :: "nat option \<Rightarrow> nat" where
  "or_1 x = (case x of None \<Rightarrow> 1 | Some n \<Rightarrow> if n = 0 then 1 else n)"

definition num_threads :: "runtime \<Rightarrow> exn + int" where
  "num_threads rt =
     (case environ rt ''TORCH_NUM_THREADS'' of
        None \<Rightarrow> Inr (int (or_1 (cpu_count rt)))
      | Some s \<Rightarrow> int_of_str rt s)"

definition startup :: "runtime \<Rightarrow> torch_call list \<times> exn option" where
  "startup rt =
     (case num_threads rt of
        Inl e \<Rightarrow> ([], Some e)
      | Inr n \<Rightarrow>
          after [SetNumThreads n]
            (case set_num_threads rt n of
               Some e \<Rightarrow> ([], Some e)
             | None \<Rightarrow>
                 after [SetNumInteropThreads n]
                   (case set_num_interop_threads rt n of
                      Some e \<Rightarrow> ([], Some e)
                    | None \<Rightarrow> ([], None))))"

subsection \<open>What the specification speaks of\<close>

text \<open>The specification's "filter existing paths": the listed paths for which
  \<^verbatim>\<open>exists()\<close> answers yes, in the order of the request.\<close>

definition existing_paths :: "('img, 'f) host \<Rightarrow> string list \<Rightarrow> string list" where
  "existing_paths h ps = filter (\<lambda>p. path_exists h p = Inr True) ps"

text \<open>A JSON value that "lacks the required field \<open>k\<close>": an object with no member of
  that name, or a value that is no object.\<close>

fun lacks_field :: "json \<Rightarrow> string \<Rightarrow> bool" where
  "lacks_field (JObject members) k = (k \<notin> set (map fst members))"
| "lacks_field _ k = True"

subsection \<open>A concrete host and a concrete runtime\<close>

text \<open>A small world to run the handlers in: two files exist, one of them an image; an
  image is a number, and its embedding repeats it.\<close>

definition demo_host :: "(nat, nat) host" where
  "demo_host =
     \<lparr>path_exists = (\<lambda>p. Inr (p = ''/data/cat.png'' \<or> p = ''/data/notes.txt'')),
      image_open = (\<lambda>p. if p = ''/data/cat.png'' then Inr 7 else Inl UnidentifiedImageError),
      image_open_bytes = (\<lambda>b. if b = ''PNG'' then Inr 7 else Inl UnidentifiedImageError),
      clip_encode = (\<lambda>i. Inr [i, i]),
      clip_encode_batch = (\<lambda>is. Inr (map (\<lambda>i. [i, i]) is)),
      text_encode = (\<lambda>s. Inr [length s]),
      text_encode_batch = (\<lambda>ss. Inr (map (\<lambda>s. [length s]) ss))\<rparr>"

definition demo_runtime :: "string option \<Rightarrow> nat option \<Rightarrow> runtime" where
  "demo_runtime v n =
     \<lparr>environ = (\<lambda>k. if k = ''TORCH_NUM_THREADS'' then v else None),
      cpu_count = n,
      int_of_str = (\<lambda>s. if s = ''4'' then Inr 4 else Inl ValueError),
      set_num_threads = (\<lambda>n. if 0 < n then None else Some RuntimeError),
      set_num_interop_threads = (\<lambda>n. if 0 < n then None else Some RuntimeError)\<rparr>"

subsection \<open>A host whose existence check can raise\<close>

text \<open>
  \<^verbatim>\<open>Path.exists()\<close> (pathlib of Python 3.11) answers \<^verbatim>\<open>False\<close> when \<^verbatim>\<open>stat\<close> fails with
  ENOENT, ENOTDIR, EBADF or ELOOP, and raises every other \<^verbatim>\<open>OSError\<close> again. On a POSIX
  file system \<^verbatim>\<open>stat\<close> fails with ENAMETOOLONG on a path of more than 4095 bytes or with
  a component of more than 255 bytes: no such path exists on the disk, and \<^verbatim>\<open>exists()\<close>
  raises on it. \<open>posix_host files\<close> is the host of a disk that holds exactly the image
  files \<open>files\<close>; an image is known by its path, and its embedding is the length of that
  path. \<open>long_name\<close> is a path of 5000 bytes.
\<close>

fun longest_component :: "string \<Rightarrow> nat \<Rightarrow> nat" where
  "longest_component [] n = n"
| "longest_component (c # cs) n =
     (if c = CHR ''/'' then max n (longest_component cs 0) else longest_component cs (Suc n))"

definition name_too_long :: "string \<Rightarrow> bool" where
  "name_too_long p = (4095 < length p \<or> 255 < longest_component p 0)"

definition long_name :: string where
  "long_name = replicate 5000 (CHR ''a'')"

definition posix_host :: "string list \<Rightarrow> (string, nat) host" where
  "posix_host files =
     \<lparr>path_exists = (\<lambda>p. if name_too_long p then Inl OSError else Inr (p \<in> set files)),
      image_open = (\<lambda>p. if p \<in> set files then Inr p else Inl FileNotFoundError),
      image_open_bytes = (\<lambda>b. Inl UnidentifiedImageError),
      clip_encode = (\<lambda>i. Inr [length i]),
      clip_encode_batch = (\<lambda>is. Inr (map (\<lambda>i. [length i]) is)),
      text_encode = (\<lambda>s. Inr [length s]),
      text_encode_batch = (\<lambda>ss. Inr (map (\<lambda>s. [length s]) ss))\<rparr>"

section \<open>The loop over the paths\<close>

lemma after_simps [simp]:
  "fst (after tr r) = tr @ fst r" "snd (after tr r) = snd r"
  by (simp_all add: after_def)

lemma existing_paths_simps [simp]:
  "existing_paths h [] = []"
  "existing_paths h (p # ps) =
     (if path_exists h p = Inr True then p # existing_paths h ps else existing_paths h ps)"
  by (simp_all add: existing_paths_def)

lemma load_images_no_model_call:
  "filter is_model_call (fst (load_images h ps acc)) = []"
  by (induction ps arbitrary: acc) (auto split: sum.splits bool.splits)

lemma load_images_opens_existing:
  "ImageOpen p \<in> set (fst (load_images h ps acc)) \<Longrightarrow> path_exists h p = Inr True"
  by (induction ps arbitrary: acc) (auto split: sum.splits bool.splits)

lemma load_images_no_batch:
  "ClipEncodeBatch imgs \<notin> set (fst (load_images h ps acc))"
  by (induction ps arbitrary: acc) (auto split: sum.splits bool.splits)

text \<open>A loop that ends normally has appended, to the images it started with, the decoded
  image of every existing path, in order.\<close>

lemma load_images_result:
  "snd (load_images h ps acc) = Inr images \<Longrightarrow>
   \<exists>imgs. images = acc @ imgs \<and>
     list_all2 (\<lambda>p img. image_open h p = Inr img) (existing_paths h ps) imgs"
proof (induction ps arbitrary: acc)
  case Nil
  then show ?case by simp
next
  case (Cons p ps)
  show ?case
  proof (cases "path_exists h p")
    case (Inl e)
    with Cons.prems show ?thesis by simp
  next
    case (Inr b)
    show ?thesis
    proof (cases b)
      case False
      with Inr Cons.prems have "snd (load_images h ps acc) = Inr images" by simp
      from Cons.IH [OF this] Inr False show ?thesis by simp
    next
      case True
      show ?thesis
      proof (cases "image_open h p")
        case (Inl e)
        with Inr True Cons.prems show ?thesis by simp
      next
        case (Inr img)
        with \<open>path_exists h p = Inr b\<close> True Cons.prems
        have "snd (load_images h ps (acc @ [img])) = Inr images" by simp
        from Cons.IH [OF this] obtain imgs where
          "images = (acc @ [img]) @ imgs"
          "list_all2 (\<lambda>p img. image_open h p = Inr img) (existing_paths h ps) imgs"
          by blast
        with Inr True \<open>path_exists h p = Inr b\<close> show ?thesis
          by (intro exI [of _ "img # imgs"]) simp
      qed
    qed
  qed
qed

lemma load_images_all_missing:
  "\<forall>p\<in>set ps. path_exists h p = Inr False \<Longrightarrow>
   load_images h ps acc = (map PathExists ps, Inr acc)"
  by (induction ps arbitrary: acc) (simp_all add: after_def)

lemma load_images_undecodable:
  "p \<in> set ps \<Longrightarrow> path_exists h p = Inr True \<Longrightarrow> image_open h p = Inl e \<Longrightarrow>
   \<exists>e'. snd (load_images h ps acc) = Inl e'"
  by (induction ps arbitrary: acc) (auto split: sum.splits bool.splits)

lemma embed_image_paths_trace_parts:
  "fst (embed_image_paths h req) = fst (load_images h (paths req) []) \<or>
   (\<exists>images. snd (load_images h (paths req) []) = Inr images \<and> images \<noteq> [] \<and>
      fst (embed_image_paths h req) =
        fst (load_images h (paths req) []) @ [ClipEncodeBatch images])"
  by (cases "load_images h (paths req) []")
     (auto simp: embed_image_paths_def split: sum.splits)

lemma embed_image_paths_success:
  assumes "snd (embed_image_paths h req) = Inr (EmbeddingsResponse es)"
  shows "\<exists>images.
           list_all2 (\<lambda>p img. image_open h p = Inr img) (existing_paths h (paths req)) images \<and>
           (if images = [] then es = [] else clip_encode_batch h images = Inr es)"
proof (cases "load_images h (paths req) []")
  case (Pair tr r)
  show ?thesis
  proof (cases r)
    case (Inl e)
    with Pair assms show ?thesis by (simp add: embed_image_paths_def)
  next
    case (Inr images)
    with Pair have "snd (load_images h (paths req) []) = Inr images" by simp
    from load_images_result [OF this]
    have l: "list_all2 (\<lambda>p img. image_open h p = Inr img) (existing_paths h (paths req)) images"
      by simp
    from Pair Inr assms
    have "if images = [] then es = [] else clip_encode_batch h images = Inr es"
      by (auto simp: embed_image_paths_def split: sum.splits if_splits)
    with l show ?thesis by blast
  qed
qed

lemma load_images_exists_raises:
  "p \<in> set ps \<Longrightarrow> path_exists h p = Inl e \<Longrightarrow> \<exists>e'. snd (load_images h ps acc) = Inl e'"
  by (induction ps arbitrary: acc) (auto split: sum.splits bool.splits)

lemma embed_image_paths_load_fails:
  "snd (load_images h (paths req) []) = Inl e \<Longrightarrow>
   embed_image_paths h req = (fst (load_images h (paths req) []), Inl e)"
  by (cases "load_images h (paths req) []") (simp add: embed_image_paths_def)

lemma embed_image_paths_exists_raises:
  assumes "q \<in> set (paths req)" and "path_exists h q = Inl x"
  shows "\<exists>e'. embed_image_paths h req = (fst (load_images h (paths req) []), Inl e')"
proof -
  from load_images_exists_raises [OF assms] obtain e' where
    "snd (load_images h (paths req) []) = Inl e'" by blast
  then have "embed_image_paths h req = (fst (load_images h (paths req) []), Inl e')"
    by (rule embed_image_paths_load_fails)
  then show ?thesis by blast
qed

lemma name_too_long_long_name: "name_too_long long_name"
  by (simp add: name_too_long_def long_name_def)

lemma cat_not_too_long: "\<not> name_too_long ''/data/cat.png''"
  by (simp add: name_too_long_def)

lemma long_name_not_cat: "long_name \<noteq> ''/data/cat.png''"
proof
  assume "long_name = ''/data/cat.png''"
  then have "length long_name = length ''/data/cat.png''" by (rule arg_cong)
  then show False by (simp add: long_name_def)
qed

section \<open>The claims\<close>

text \<open>
  \<^bold>\<open>C1.\<close> As stated the claim fails: a path that does not exist on the disk is not
  always dropped. On the disk that holds only \<^verbatim>\<open>/data/cat.png\<close>, a request listing that
  file and \<open>long_name\<close>, which is not on the disk, gets no embedding: \<^verbatim>\<open>exists()\<close> raises
  on the long name and the handler, which catches nothing, raises with it, in either
  order of the two paths.
\<close>

theorem embed_image_paths_drops_missing_counterexample:
  "long_name \<notin> set [''/data/cat.png''] \<and>
   ''/data/cat.png'' \<in> set [''/data/cat.png''] \<and>
   image_open (posix_host [''/data/cat.png'']) ''/data/cat.png'' = Inr ''/data/cat.png'' \<and>
   embed_image_paths (posix_host [''/data/cat.png'']) \<lparr>paths = [''/data/cat.png'', long_name]\<rparr> =
     ([PathExists ''/data/cat.png'', ImageOpen ''/data/cat.png'', PathExists long_name],
      Inl OSError) \<and>
   embed_image_paths (posix_host [''/data/cat.png'']) \<lparr>paths = [long_name, ''/data/cat.png'']\<rparr> =
     ([PathExists long_name], Inl OSError)"
  using name_too_long_long_name cat_not_too_long long_name_not_cat
  by (simp add: posix_host_def embed_image_paths_def after_def)

text \<open>
  \<^bold>\<open>C1, amended.\<close> In \<^verbatim>\<open>POST /embed/image-paths\<close> every listed path on which
  \<^verbatim>\<open>exists()\<close> answers \<^verbatim>\<open>False\<close> is dropped before embedding: (1) a path is opened only
  when \<^verbatim>\<open>exists()\<close> answered \<^verbatim>\<open>True\<close> on it; (2) a batch handed to the image model is the
  decoded images of the paths on which it answered \<^verbatim>\<open>True\<close>, in order, and nothing else;
  (3) when the model returns one embedding per image, the response holds as many
  embeddings as there are such paths; (4) in particular a request listing one existing,
  decodable path and one path on which \<^verbatim>\<open>exists()\<close> answers \<^verbatim>\<open>False\<close>, in either order,
  is answered with exactly the one embedding the model returns for that one image;
  (5) a listed path on which \<^verbatim>\<open>exists()\<close> raises is not dropped: the handler raises.
\<close>

theorem embed_image_paths_drops_missing:
  "(ImageOpen p \<in> set (fst (embed_image_paths h req)) \<longrightarrow> path_exists h p = Inr True) \<and>
   (ClipEncodeBatch images \<in> set (fst (embed_image_paths h req)) \<longrightarrow>
      list_all2 (\<lambda>p img. image_open h p = Inr img) (existing_paths h (paths req)) images) \<and>
   (snd (embed_image_paths h req) = Inr (EmbeddingsResponse es) \<and>
    (\<forall>imgs out. clip_encode_batch h imgs = Inr out \<longrightarrow> length out = length imgs) \<longrightarrow>
      length es = length (existing_paths h (paths req))) \<and>
   (path_exists h a = Inr True \<and> path_exists h b = Inr False \<and> image_open h a = Inr img \<and>
    clip_encode_batch h [img] = Inr [e] \<longrightarrow>
      snd (embed_image_paths h \<lparr>paths = [a, b]\<rparr>) = Inr (EmbeddingsResponse [e]) \<and>
      snd (embed_image_paths h \<lparr>paths = [b, a]\<rparr>) = Inr (EmbeddingsResponse [e])) \<and>
   (q \<in> set (paths req) \<and> path_exists h q = Inl x \<longrightarrow>
      (\<exists>e'. snd (embed_image_paths h req) = Inl e'))"
proof (intro conjI impI)
  assume "ImageOpen p \<in> set (fst (embed_image_paths h req))"
  with embed_image_paths_trace_parts [of h req]
  have "ImageOpen p \<in> set (fst (load_images h (paths req) []))" by auto
  then show "path_exists h p = Inr True" by (rule load_images_opens_existing)
next
  assume b: "ClipEncodeBatch images \<in> set (fst (embed_image_paths h req))"
  from embed_image_paths_trace_parts [of h req] b load_images_no_batch [of images h "paths req" "[]"]
  have "snd (load_images h (paths req) []) = Inr images" by auto
  from load_images_result [OF this]
  show "list_all2 (\<lambda>p img. image_open h p = Inr img) (existing_paths h (paths req)) images"
    by simp
next
  assume a: "snd (embed_image_paths h req) = Inr (EmbeddingsResponse es) \<and>
    (\<forall>imgs out. clip_encode_batch h imgs = Inr out \<longrightarrow> length out = length imgs)"
  then obtain images where
    l: "list_all2 (\<lambda>p img. image_open h p = Inr img) (existing_paths h (paths req)) images" and
    r: "if images = [] then es = [] else clip_encode_batch h images = Inr es"
    using embed_image_paths_success by blast
  from r a have "length es = length images" by (auto split: if_splits)
  with l show "length es = length (existing_paths h (paths req))"
    by (simp add: list_all2_lengthD)
next
  assume "path_exists h a = Inr True \<and> path_exists h b = Inr False \<and> image_open h a = Inr img \<and>
    clip_encode_batch h [img] = Inr [e]"
  then show "snd (embed_image_paths h \<lparr>paths = [a, b]\<rparr>) = Inr (EmbeddingsResponse [e])"
    by (simp add: embed_image_paths_def after_def)
next
  assume "path_exists h a = Inr True \<and> path_exists h b = Inr False \<and> image_open h a = Inr img \<and>
    clip_encode_batch h [img] = Inr [e]"
  then show "snd (embed_image_paths h \<lparr>paths = [b, a]\<rparr>) = Inr (EmbeddingsResponse [e])"
    by (simp add: embed_image_paths_def after_def)
next
  assume "q \<in> set (paths req) \<and> path_exists h q = Inl x"
  then have "\<exists>e'. embed_image_paths h req = (fst (load_images h (paths req) []), Inl e')"
    by (intro embed_image_paths_exists_raises [of q req h x]) simp_all
  then show "\<exists>e'. snd (embed_image_paths h req) = Inl e'" by auto
qed

theorem embed_image_paths_drops_missing_witness:
  "path_exists demo_host ''/data/cat.png'' = Inr True \<and>
   path_exists demo_host ''/data/gone.png'' = Inr False \<and>
   image_open demo_host ''/data/cat.png'' = Inr 7 \<and>
   clip_encode_batch demo_host [7] = Inr [[7, 7]] \<and>
   (\<forall>imgs. \<exists>out. clip_encode_batch demo_host imgs = Inr out \<and> length out = length imgs) \<and>
   embed_image_paths demo_host \<lparr>paths = [''/data/cat.png'', ''/data/gone.png'']\<rparr> =
     ([PathExists ''/data/cat.png'', ImageOpen ''/data/cat.png'', PathExists ''/data/gone.png'',
       ClipEncodeBatch [7]],
      Inr (EmbeddingsResponse [[7, 7]])) \<and>
   snd (embed_image_paths demo_host \<lparr>paths = [''/data/gone.png'', ''/data/cat.png'']\<rparr>) =
     Inr (EmbeddingsResponse [[7, 7]]) \<and>
   length (existing_paths demo_host [''/data/cat.png'', ''/data/gone.png'']) = 1 \<and>
   long_name \<in> set [''/data/cat.png'', long_name] \<and>
   path_exists (posix_host [''/data/cat.png'']) long_name = Inl OSError \<and>
   (\<exists>e'. snd (embed_image_paths (posix_host [''/data/cat.png''])
                 \<lparr>paths = [''/data/cat.png'', long_name]\<rparr>) = Inl e')"
proof -
  have d: "path_exists demo_host ''/data/cat.png'' = Inr True \<and>
   path_exists demo_host ''/data/gone.png'' = Inr False \<and>
   image_open demo_host ''/data/cat.png'' = Inr 7 \<and>
   clip_encode_batch demo_host [7] = Inr [[7, 7]] \<and>
   (\<forall>imgs. \<exists>out. clip_encode_batch demo_host imgs = Inr out \<and> length out = length imgs) \<and>
   embed_image_paths demo_host \<lparr>paths = [''/data/cat.png'', ''/data/gone.png'']\<rparr> =
     ([PathExists ''/data/cat.png'', ImageOpen ''/data/cat.png'', PathExists ''/data/gone.png'',
       ClipEncodeBatch [7]],
      Inr (EmbeddingsResponse [[7, 7]])) \<and>
   snd (embed_image_paths demo_host \<lparr>paths = [''/data/gone.png'', ''/data/cat.png'']\<rparr>) =
     Inr (EmbeddingsResponse [[7, 7]]) \<and>
   length (existing_paths demo_host [''/data/cat.png'', ''/data/gone.png'']) = 1"
    using embed_image_paths_drops_missing
      [of "''/data/gone.png''" demo_host "\<lparr>paths = [''/data/cat.png'', ''/data/gone.png'']\<rparr>"
          "[7]" "[[7, 7]]" "''/data/cat.png''" "''/data/gone.png''" 7 "[7, 7]"
          "''/data/gone.png''" OSError]
    by (simp add: demo_host_def embed_image_paths_def after_def)
  have m: "long_name \<in> set (paths \<lparr>paths = [''/data/cat.png'', long_name]\<rparr>)"
    by simp
  have x: "path_exists (posix_host [''/data/cat.png'']) long_name = Inl OSError"
    using name_too_long_long_name by (simp add: posix_host_def)
  from embed_image_paths_drops_missing
    [of long_name "posix_host [''/data/cat.png'']" "\<lparr>paths = [''/data/cat.png'', long_name]\<rparr>"
        "[]" "[]" "''/data/cat.png''" long_name "''/data/cat.png''" "[]" long_name OSError]
  have "long_name \<in> set (paths \<lparr>paths = [''/data/cat.png'', long_name]\<rparr>) \<and>
        path_exists (posix_host [''/data/cat.png'']) long_name = Inl OSError \<longrightarrow>
        (\<exists>e'. snd (embed_image_paths (posix_host [''/data/cat.png''])
                 \<lparr>paths = [''/data/cat.png'', long_name]\<rparr>) = Inl e')"
    by (elim conjE)
  with m x have y: "\<exists>e'. snd (embed_image_paths (posix_host [''/data/cat.png''])
                 \<lparr>paths = [''/data/cat.png'', long_name]\<rparr>) = Inl e'"
    by blast
  have m': "long_name \<in> set [''/data/cat.png'', long_name]" by simp
  from d m' x y show ?thesis by blast
qed

text \<open>
  \<^bold>\<open>C2.\<close> As stated the claim fails: on the disk that holds only \<^verbatim>\<open>/data/cat.png\<close>, the
  request listing the one path \<open>long_name\<close> lists no path that exists on the disk, yet
  it is no success: \<^verbatim>\<open>exists()\<close> raises, the handler raises and the caller gets status
  500.
\<close>

theorem embed_image_paths_none_exist_counterexample:
  "long_name \<notin> set [''/data/cat.png''] \<and>
   embed_image_paths (posix_host [''/data/cat.png'']) \<lparr>paths = [long_name]\<rparr> =
     ([PathExists long_name], Inl OSError) \<and>
   POST_embed_image_paths (posix_host [''/data/cat.png''])
     (JsonBody (JObject [(''paths'', JArray [JString long_name])])) =
     ([PathExists long_name], HTTP_500)"
  using name_too_long_long_name long_name_not_cat
  by (simp add: posix_host_def embed_image_paths_def after_def POST_embed_image_paths_def
      ImagePathsRequest_validate_def field_def answer_def)

text \<open>
  \<^bold>\<open>C2, amended.\<close> When \<^verbatim>\<open>exists()\<close> answers \<^verbatim>\<open>False\<close> on every listed path (the empty
  list included), \<^verbatim>\<open>POST /embed/image-paths\<close> answers \<^verbatim>\<open>{"embeddings": []}\<close> with status
  200, and the only library calls of the request are the existence checks: no image is
  opened and no model is called. When \<^verbatim>\<open>exists()\<close> raises on a listed path, the handler
  raises and the caller gets status 500, again without any model call.
\<close>

theorem embed_image_paths_none_exist:
  "((\<forall>p\<in>set (paths req). path_exists h p = Inr False) \<longrightarrow>
      embed_image_paths h req = (map PathExists (paths req), Inr (EmbeddingsResponse [])) \<and>
      filter is_model_call (fst (embed_image_paths h req)) = [] \<and>
      (ImagePathsRequest_validate j = Some req \<longrightarrow>
         POST_embed_image_paths h (JsonBody j) =
           (map PathExists (paths req), HTTP_200 (EmbeddingsResponse [])))) \<and>
   (q \<in> set (paths req) \<and> path_exists h q = Inl x \<longrightarrow>
      (\<exists>e'. snd (embed_image_paths h req) = Inl e') \<and>
      filter is_model_call (fst (embed_image_paths h req)) = [] \<and>
      (ImagePathsRequest_validate j = Some req \<longrightarrow>
         snd (POST_embed_image_paths h (JsonBody j)) = HTTP_500))"
proof (intro conjI impI)
  assume a: "\<forall>p\<in>set (paths req). path_exists h p = Inr False"
  then have l: "load_images h (paths req) [] = (map PathExists (paths req), Inr [])"
    by (rule load_images_all_missing)
  then show e: "embed_image_paths h req = (map PathExists (paths req), Inr (EmbeddingsResponse []))"
    by (simp add: embed_image_paths_def)
  have m: "filter is_model_call (map PathExists (paths req) :: 'a call list) = []"
    by (induction "paths req" arbitrary: req) (simp_all add: filter_empty_conv)
  with e show "filter is_model_call (fst (embed_image_paths h req)) = []" by simp
  assume "ImagePathsRequest_validate j = Some req"
  with e show "POST_embed_image_paths h (JsonBody j) =
      (map PathExists (paths req), HTTP_200 (EmbeddingsResponse []))"
    by (simp add: POST_embed_image_paths_def answer_def)
next
  assume "q \<in> set (paths req) \<and> path_exists h q = Inl x"
  then have "\<exists>e'. embed_image_paths h req = (fst (load_images h (paths req) []), Inl e')"
    by (intro embed_image_paths_exists_raises [of q req h x]) simp_all
  then obtain e' where
    r: "embed_image_paths h req = (fst (load_images h (paths req) []), Inl e')" by blast
  from r show "\<exists>e'. snd (embed_image_paths h req) = Inl e'" by simp
  from r show "filter is_model_call (fst (embed_image_paths h req)) = []"
    by (simp add: load_images_no_model_call)
  assume "ImagePathsRequest_validate j = Some req"
  with r show "snd (POST_embed_image_paths h (JsonBody j)) = HTTP_500"
    by (simp add: POST_embed_image_paths_def answer_def)
qed

theorem embed_image_paths_none_exist_witness:
  "path_exists demo_host ''/data/gone.png'' = Inr False \<and>
   path_exists demo_host ''/tmp/nope.jpg'' = Inr False \<and>
   ImagePathsRequest_validate
     (JObject [(''paths'', JArray [JString ''/data/gone.png'', JString ''/tmp/nope.jpg''])]) =
     Some \<lparr>paths = [''/data/gone.png'', ''/tmp/nope.jpg'']\<rparr> \<and>
   POST_embed_image_paths demo_host
     (JsonBody (JObject [(''paths'', JArray [JString ''/data/gone.png'', JString ''/tmp/nope.jpg''])])) =
     ([PathExists ''/data/gone.png'', PathExists ''/tmp/nope.jpg''],
      HTTP_200 (EmbeddingsResponse [])) \<and>
   embed_image_paths demo_host \<lparr>paths = []\<rparr> = ([], Inr (EmbeddingsResponse [])) \<and>
   path_exists (posix_host []) long_name = Inl OSError \<and>
   snd (POST_embed_image_paths (posix_host [])
     (JsonBody (JObject [(''paths'', JArray [JString long_name])]))) = HTTP_500"
proof -
  have x: "path_exists (posix_host []) long_name = Inl OSError"
    using name_too_long_long_name by (simp add: posix_host_def)
  from embed_image_paths_none_exist
    [of "\<lparr>paths = [''/data/gone.png'', ''/tmp/nope.jpg'']\<rparr>" demo_host
        "JObject [(''paths'', JArray [JString ''/data/gone.png'', JString ''/tmp/nope.jpg''])]"]
    embed_image_paths_none_exist [of "\<lparr>paths = []\<rparr>" demo_host JNull]
    embed_image_paths_none_exist
    [of "\<lparr>paths = [long_name]\<rparr>" "posix_host []"
        "JObject [(''paths'', JArray [JString long_name])]" long_name OSError] x
  show ?thesis
    by (simp add: demo_host_def ImagePathsRequest_validate_def field_def)
qed

text \<open>
  \<^bold>\<open>C3.\<close> \<^verbatim>\<open>embed_texts\<close> and \<^verbatim>\<open>embed_text\<close> hand their input to the text model and
  return what it returns. Let \<open>approx\<close> be any relation between two embeddings (equality
  up to the tolerance one likes), and let the text model's batch output agree with its
  single-text output position by position up to \<open>approx\<close>. Then a response of
  \<^verbatim>\<open>embed_texts\<close> to the texts \<open>T\<close> has the length of \<open>T\<close>, and for every index \<open>i\<close> the
  single-text handler on \<open>T[i]\<close> returns an embedding that the \<open>i\<close>-th embedding of the
  batch response agrees with up to \<open>approx\<close>.
\<close>

theorem embed_texts_agrees_with_embed_text:
  assumes "snd (embed_texts h req) = Inr (EmbeddingsResponse es)"
      and "\<forall>ts out. text_encode_batch h ts = Inr out \<longrightarrow>
             list_all2 (\<lambda>t e. \<exists>e'. text_encode h t = Inr e' \<and> approx e' e) ts out"
  shows "length es = length (texts req) \<and>
         (\<forall>i<length (texts req). \<exists>e'.
            embed_text h \<lparr>text' = texts req ! i\<rparr> =
              ([TextEncode (texts req ! i)], Inr (EmbeddingResponse e')) \<and>
            approx e' (es ! i))"
proof -
  from assms(1) have "text_encode_batch h (texts req) = Inr es"
    by (simp add: embed_texts_def split: sum.splits)
  with assms(2)
  have l: "list_all2 (\<lambda>t e. \<exists>e'. text_encode h t = Inr e' \<and> approx e' e) (texts req) es"
    by blast
  then have n: "length es = length (texts req)"
    by (simp add: list_all2_lengthD)
  have "\<exists>e'. embed_text h \<lparr>text' = texts req ! i\<rparr> =
               ([TextEncode (texts req ! i)], Inr (EmbeddingResponse e')) \<and> approx e' (es ! i)"
    if "i < length (texts req)" for i
  proof -
    from list_all2_nthD [OF l that] obtain e' where
      "text_encode h (texts req ! i) = Inr e'" and "approx e' (es ! i)" by blast
    then show ?thesis by (auto simp: embed_text_def after_def)
  qed
  with n show ?thesis by blast
qed

theorem embed_texts_agrees_with_embed_text_witness:
  "embed_texts demo_host \<lparr>texts = [''ab'', ''c'']\<rparr> =
     ([TextEncodeBatch [''ab'', ''c'']], Inr (EmbeddingsResponse [[2], [1]])) \<and>
   (\<forall>ts. \<exists>out. text_encode_batch demo_host ts = Inr out \<and>
      list_all2 (\<lambda>t e. \<exists>e'. text_encode demo_host t = Inr e' \<and> e' = e) ts out) \<and>
   length [[2], [1::nat]] = length [''ab'', ''c''] \<and>
   embed_text demo_host \<lparr>text' = ''ab''\<rparr> = ([TextEncode ''ab''], Inr (EmbeddingResponse [2])) \<and>
   embed_text demo_host \<lparr>text' = ''c''\<rparr> = ([TextEncode ''c''], Inr (EmbeddingResponse [1]))"
proof -
  have r: "snd (embed_texts demo_host \<lparr>texts = [''ab'', ''c'']\<rparr>) =
             Inr (EmbeddingsResponse [[2], [1]])"
    by (simp add: demo_host_def embed_texts_def)
  have c: "\<forall>ts out. text_encode_batch demo_host ts = Inr out \<longrightarrow>
             list_all2 (\<lambda>t e. \<exists>e'. text_encode demo_host t = Inr e' \<and> e' = e) ts out"
    by (auto simp: demo_host_def list_all2_map2 intro: list_all2_refl)
  have c': "\<forall>ts. \<exists>out. text_encode_batch demo_host ts = Inr out \<and>
             list_all2 (\<lambda>t e. \<exists>e'. text_encode demo_host t = Inr e' \<and> e' = e) ts out"
    by (auto simp: demo_host_def list_all2_map2 intro: list_all2_refl)
  from embed_texts_agrees_with_embed_text [OF r c] c'
  show ?thesis
    by (simp add: demo_host_def embed_texts_def embed_text_def after_def)
qed

text \<open>
  \<^bold>\<open>C4.\<close> \<^verbatim>\<open>embed_texts\<close> has no guard of its own for the empty list: it hands the list to
  the text model and returns what the model returns. For a text model that keeps the
  model host's contract (the empty batch yields the empty output), \<^verbatim>\<open>embed_texts\<close> on
  the empty list returns the empty list, and \<^verbatim>\<open>POST /embed/texts\<close> with
  \<^verbatim>\<open>{"texts": []}\<close> answers \<^verbatim>\<open>{"embeddings": []}\<close> with status 200.
\<close>

theorem embed_texts_empty:
  assumes "text_encode_batch h [] = Inr []"
  shows "embed_texts h \<lparr>texts = []\<rparr> = ([TextEncodeBatch []], Inr (EmbeddingsResponse [])) \<and>
         POST_embed_texts h (JsonBody (JObject [(''texts'', JArray [])])) =
           ([TextEncodeBatch []], HTTP_200 (EmbeddingsResponse []))"
  using assms
  by (simp add: embed_texts_def POST_embed_texts_def TextsRequest_validate_def field_def
      answer_def after_def)

theorem embed_texts_empty_witness:
  "text_encode_batch demo_host [] = Inr [] \<and>
   POST_embed_texts demo_host (JsonBody (JObject [(''texts'', JArray [])])) =
     ([TextEncodeBatch []], HTTP_200 (EmbeddingsResponse []))"
  using embed_texts_empty [of demo_host]
  by (simp add: demo_host_def)

text \<open>
  \<^bold>\<open>C5.\<close> \<^verbatim>\<open>GET /health\<close> answers \<^verbatim>\<open>{"status": "ok"}\<close> with status 200 whatever the host
  and its models do, and calls no model (it calls nothing at all).
\<close>

theorem health_always_ok:
  "GET_health h = ([], HTTP_200 (StatusResponse ''ok'')) \<and>
   filter is_model_call (fst (GET_health h)) = []"
  by (simp add: GET_health_def answer_def health_def)

text \<open>
  \<^bold>\<open>C6.\<close> A body of \<^verbatim>\<open>POST /embed/text\<close> that is not JSON, or that is JSON without the
  field \<^verbatim>\<open>text\<close>, is answered with status 422, not 500, and the trace of the request is
  empty: the rejection comes before any model call.
\<close>

theorem embed_text_rejects_invalid_body:
  assumes "b = NotJson \<or> (\<exists>j. b = JsonBody j \<and> lacks_field j ''text'')"
  shows "POST_embed_text h b = ([], HTTP_422)"
proof -
  have "TextRequest_validate j = None" if "lacks_field j ''text''" for j
  proof (cases j)
    case (JObject members)
    with that have "map_of (rev members) ''text'' = None"
      by (simp add: map_of_eq_None_iff)
    with JObject show ?thesis by (simp add: TextRequest_validate_def field_def)
  qed (simp_all add: TextRequest_validate_def)
  with assms show ?thesis by (auto simp: POST_embed_text_def)
qed

theorem embed_text_rejects_invalid_body_witness:
  "lacks_field (JObject [(''txt'', JString ''hello'')]) ''text'' \<and>
   POST_embed_text demo_host (JsonBody (JObject [(''txt'', JString ''hello'')])) = ([], HTTP_422) \<and>
   POST_embed_text demo_host NotJson = ([], HTTP_422) \<and>
   POST_embed_text demo_host (JsonBody (JObject [(''text'', JString ''hello'')])) =
     ([TextEncode ''hello''], HTTP_200 (EmbeddingResponse [5]))"
  using embed_text_rejects_invalid_body
      [of "JsonBody (JObject [(''txt'', JString ''hello'')])" demo_host]
    embed_text_rejects_invalid_body [of NotJson demo_host]
  by (simp add: demo_host_def POST_embed_text_def TextRequest_validate_def field_def
      embed_text_def answer_def after_def)

text \<open>
  \<^bold>\<open>C7.\<close> When the decoder raises on the uploaded bytes of \<^verbatim>\<open>POST /embed/image\<close>, the
  handler raises that exception, the caller gets status 500 and no embedding, and the
  decode attempt is the only library call: no model is called.
\<close>

theorem embed_image_undecodable:
  assumes "image_open_bytes h contents = Inl e"
  shows "embed_image h contents = ([ImageOpenBytes contents], Inl e) \<and>
         filter is_model_call (fst (embed_image h contents)) = [] \<and>
         POST_embed_image h (Some contents) = ([ImageOpenBytes contents], HTTP_500)"
  using assms by (simp add: embed_image_def POST_embed_image_def answer_def after_def)

theorem embed_image_undecodable_witness:
  "image_open_bytes demo_host ''not an image'' = Inl UnidentifiedImageError \<and>
   POST_embed_image demo_host (Some ''not an image'') =
     ([ImageOpenBytes ''not an image''], HTTP_500) \<and>
   POST_embed_image demo_host (Some ''PNG'') =
     ([ImageOpenBytes ''PNG'', ClipEncode 7], HTTP_200 (EmbeddingResponse [7, 7]))"
  using embed_image_undecodable [of demo_host "''not an image''" UnidentifiedImageError]
  by (simp add: demo_host_def embed_image_def POST_embed_image_def answer_def after_def)

text \<open>
  \<^bold>\<open>C8.\<close> The thread count at start-up: (1) when \<^verbatim>\<open>TORCH_NUM_THREADS\<close> is set to a
  string that \<^verbatim>\<open>int\<close> reads as \<open>v\<close>, the count is \<open>v\<close>; (2) when it is unset and the
  host's CPU count is \<open>n\<close>, the count is \<open>n\<close>; (3) no other environment variable
  matters: two environments that agree on this one give the same count; (4) the count
  goes to the two thread-pool setters of the inference runtime and nowhere else, and a
  start-up that completes has called both with it. The request handlers do not take the
  count.
\<close>

theorem num_threads_from_environment:
  "(environ rt ''TORCH_NUM_THREADS'' = Some s \<and> int_of_str rt s = Inr v \<longrightarrow>
      num_threads rt = Inr v) \<and>
   (environ rt ''TORCH_NUM_THREADS'' = None \<and> cpu_count rt = Some n \<and> 0 < n \<longrightarrow>
      num_threads rt = Inr (int n)) \<and>
   (environ rt ''TORCH_NUM_THREADS'' = environ rt' ''TORCH_NUM_THREADS'' \<and>
    cpu_count rt = cpu_count rt' \<and> int_of_str rt = int_of_str rt' \<longrightarrow>
      num_threads rt = num_threads rt') \<and>
   (num_threads rt = Inr t \<longrightarrow>
      set (fst (startup rt)) \<subseteq> {SetNumThreads t, SetNumInteropThreads t} \<and>
      (snd (startup rt) = None \<longrightarrow>
         fst (startup rt) = [SetNumThreads t, SetNumInteropThreads t]))"
  by (auto simp: num_threads_def or_1_def startup_def split: option.splits)

theorem num_threads_from_environment_witness:
  "environ (demo_runtime (Some ''4'') (Some 16)) ''TORCH_NUM_THREADS'' = Some ''4'' \<and>
   int_of_str (demo_runtime (Some ''4'') (Some 16)) ''4'' = Inr 4 \<and>
   num_threads (demo_runtime (Some ''4'') (Some 16)) = Inr 4 \<and>
   num_threads (demo_runtime (Some ''4'') (Some 8)) = Inr 4 \<and>
   startup (demo_runtime (Some ''4'') (Some 16)) =
     ([SetNumThreads 4, SetNumInteropThreads 4], None) \<and>
   environ (demo_runtime None (Some 16)) ''TORCH_NUM_THREADS'' = None \<and>
   cpu_count (demo_runtime None (Some 16)) = Some 16 \<and>
   num_threads (demo_runtime None (Some 16)) = Inr 16 \<and>
   startup (demo_runtime None (Some 16)) =
     ([SetNumThreads 16, SetNumInteropThreads 16], None)"
  using num_threads_from_environment
      [of "demo_runtime (Some ''4'') (Some 16)" "''4''" 4 16 "demo_runtime (Some ''4'') (Some 8)" 4]
    num_threads_from_environment
      [of "demo_runtime None (Some 16)" "''4''" 4 16 "demo_runtime None (Some 16)" 16]
  by (simp add: demo_runtime_def num_threads_def or_1_def startup_def after_def)

text \<open>
  \<^bold>\<open>C9.\<close> In \<^verbatim>\<open>POST /embed/image-paths\<close> a listed path that exists and on which the
  decoder raises is not skipped: the handler raises, no model is called (so nothing is
  embedded, the paths decoded before it included), and the caller gets status 500.
\<close>

theorem embed_image_paths_all_or_nothing:
  assumes "p \<in> set (paths req)" and "path_exists h p = Inr True" and "image_open h p = Inl e"
  shows "(\<exists>e'. snd (embed_image_paths h req) = Inl e') \<and>
         filter is_model_call (fst (embed_image_paths h req)) = [] \<and>
         (ImagePathsRequest_validate j = Some req \<longrightarrow>
            snd (POST_embed_image_paths h (JsonBody j)) = HTTP_500)"
proof -
  from load_images_undecodable [OF assms] obtain e' where
    "snd (load_images h (paths req) []) = Inl e'" by blast
  then have r: "embed_image_paths h req = (fst (load_images h (paths req) []), Inl e')"
    by (cases "load_images h (paths req) []") (simp add: embed_image_paths_def)
  then show ?thesis
    by (simp add: load_images_no_model_call POST_embed_image_paths_def answer_def)
qed

theorem embed_image_paths_all_or_nothing_witness:
  "''/data/notes.txt'' \<in> set [''/data/cat.png'', ''/data/notes.txt''] \<and>
   path_exists demo_host ''/data/notes.txt'' = Inr True \<and>
   image_open demo_host ''/data/notes.txt'' = Inl UnidentifiedImageError \<and>
   embed_image_paths demo_host \<lparr>paths = [''/data/cat.png'', ''/data/notes.txt'']\<rparr> =
     ([PathExists ''/data/cat.png'', ImageOpen ''/data/cat.png'',
       PathExists ''/data/notes.txt'', ImageOpen ''/data/notes.txt''],
      Inl UnidentifiedImageError) \<and>
   snd (POST_embed_image_paths demo_host
     (JsonBody (JObject [(''paths'', JArray [JString ''/data/cat.png'', JString ''/data/notes.txt''])]))) =
     HTTP_500"
  using embed_image_paths_all_or_nothing
    [of "''/data/notes.txt''" "\<lparr>paths = [''/data/cat.png'', ''/data/notes.txt'']\<rparr>" demo_host
        UnidentifiedImageError
        "JObject [(''paths'', JArray [JString ''/data/cat.png'', JString ''/data/notes.txt''])]"]
  by (simp add: demo_host_def embed_image_paths_def after_def ImagePathsRequest_validate_def
      field_def)

text \<open>
  \<^bold>\<open>C10.\<close> The embeddings of \<^verbatim>\<open>POST /embed/image-paths\<close> follow the existing paths in
  the order of the request. The existing paths are a subsequence of the listed ones;
  and for any relation \<open>R\<close> between an image and an embedding that the image model keeps
  position by position on a batch, a successful response has one embedding per existing
  path, the \<open>k\<close>-th embedding being \<open>R\<close>-related to the decoded image of the \<open>k\<close>-th
  existing path.
\<close>

theorem embed_image_paths_order:
  assumes "snd (embed_image_paths h req) = Inr (EmbeddingsResponse es)"
      and "\<forall>imgs out. clip_encode_batch h imgs = Inr out \<longrightarrow> list_all2 R imgs out"
  shows "subseq (existing_paths h (paths req)) (paths req) \<and>
         length es = length (existing_paths h (paths req)) \<and>
         (\<forall>k<length es. \<exists>img. image_open h (existing_paths h (paths req) ! k) = Inr img \<and>
                                R img (es ! k))"
proof -
  from assms(1) obtain images where
    l: "list_all2 (\<lambda>p img. image_open h p = Inr img) (existing_paths h (paths req)) images" and
    r: "if images = [] then es = [] else clip_encode_batch h images = Inr es"
    using embed_image_paths_success by blast
  from r assms(2) have m: "list_all2 R images es" by (auto split: if_splits)
  have s: "subseq (existing_paths h (paths req)) (paths req)"
    by (simp add: existing_paths_def)
  from l m have n: "length es = length (existing_paths h (paths req))"
    by (simp add: list_all2_lengthD)
  have "\<exists>img. image_open h (existing_paths h (paths req) ! k) = Inr img \<and> R img (es ! k)"
    if "k < length es" for k
  proof -
    from that n have "k < length (existing_paths h (paths req))" by simp
    from list_all2_nthD [OF l this]
    have "image_open h (existing_paths h (paths req) ! k) = Inr (images ! k)" .
    moreover from list_all2_nthD2 [OF m that] have "R (images ! k) (es ! k)" .
    ultimately show ?thesis by blast
  qed
  with s n show ?thesis by blast
qed

theorem embed_image_paths_order_witness:
  "snd (embed_image_paths demo_host
          \<lparr>paths = [''/data/gone.png'', ''/data/cat.png'', ''/tmp/nope.jpg'', ''/data/cat.png'']\<rparr>) =
     Inr (EmbeddingsResponse [[7, 7], [7, 7]]) \<and>
   (\<forall>imgs. \<exists>out. clip_encode_batch demo_host imgs = Inr out \<and>
      list_all2 (\<lambda>i e. e = [i, i]) imgs out) \<and>
   existing_paths demo_host
     [''/data/gone.png'', ''/data/cat.png'', ''/tmp/nope.jpg'', ''/data/cat.png''] =
     [''/data/cat.png'', ''/data/cat.png''] \<and>
   subseq [''/data/cat.png'', ''/data/cat.png'']
     [''/data/gone.png'', ''/data/cat.png'', ''/tmp/nope.jpg'', ''/data/cat.png''] \<and>
   image_open demo_host ''/data/cat.png'' = Inr 7"
proof -
  let ?req = "\<lparr>paths = [''/data/gone.png'', ''/data/cat.png'', ''/tmp/nope.jpg'', ''/data/cat.png'']\<rparr>"
  have r: "snd (embed_image_paths demo_host ?req) = Inr (EmbeddingsResponse [[7, 7], [7, 7]])"
    by (simp add: demo_host_def embed_image_paths_def after_def)
  have c: "\<forall>imgs out. clip_encode_batch demo_host imgs = Inr out \<longrightarrow>
             list_all2 (\<lambda>i e. e = [i, i]) imgs out"
    by (auto simp: demo_host_def list_all2_map2 intro: list_all2_refl)
  have c': "\<forall>imgs. \<exists>out. clip_encode_batch demo_host imgs = Inr out \<and>
             list_all2 (\<lambda>i e. e = [i, i]) imgs out"
    by (auto simp: demo_host_def list_all2_map2 intro: list_all2_refl)
  have x: "existing_paths demo_host (paths ?req) = [''/data/cat.png'', ''/data/cat.png'']"
    by (simp add: demo_host_def)
  have i: "image_open demo_host ''/data/cat.png'' = Inr 7"
    by (simp add: demo_host_def)
  from embed_image_paths_order [OF r c] r c' x i show ?thesis by simp
qed

end
